theory Spec2Isabelle
  imports Main "HOL-Library.AList" "HOL-Library.Multiset"
begin

section \<open>The package source adapter of pipgrip (\<open>pipgrip/package_source.py\<close>)\<close>

text \<open>
  The adapter maps package names to the versions known for them and to the dependency
  list of each version, filled lazily by an external discovery call. The model follows
  the Python text: mutation of \<open>self\<close> is state passing, every \<open>raise\<close> and every
  failing subscript is an error value, and the state reached when the exception leaves
  the method is returned with it (a Python exception does not undo earlier writes).

  Everything the module imports is a parameter, collected in the record \<open>env\<close>: the
  requirement parser of \<open>pkg_resources\<close>, the classes of \<open>pipgrip.libs.semver\<close>
  and \<open>pipgrip.libs.mixology\<close>, and the discovery call of \<open>pipgrip.pipper\<close>.
  Versions are the values of a linearly ordered type \<open>'v\<close>.
\<close>

subsection \<open>Errors\<close>

datatype error =
    ValueError string
  | KeyError
  | ParseError string
  | RequirementParseError string
  | CollaboratorError string

subsection \<open>Values of the imported modules\<close>

text \<open>\<open>pkg_resources.Requirement\<close>: the attributes the adapter reads (\<open>key\<close>, \<open>specs\<close>,
  a list of (comparator, version) pairs, and \<open>__str__()\<close>).\<close>

record requirement =
  key :: string
  specs :: "(string \<times> string) list"
  req_str :: string

text \<open>\<open>semver.VersionRange\<close> and \<open>semver.VersionUnion\<close>, the results of
  \<open>parse_constraint\<close>: the attributes \<open>convert_dependency\<close> reads.\<close>

record 'v version_range =
  vr_min :: "'v option"
  vr_max :: "'v option"
  vr_include_min :: bool
  vr_include_max :: bool

datatype 'v version_constraint =
    VersionRange "'v version_range"
  | VersionUnion "'v version_range list"

text \<open>\<open>mixology.Range(min, max, include_min, include_max, string)\<close>; the last argument
  is absent in the four-argument call of \<open>_versions_for\<close>. A value the resolver reasons
  about is a range or a union of ranges; \<open>Constraint\<close> pairs it with a package name.\<close>

datatype 'v range_m =
  RangeM (range_min: "'v option") (range_max: "'v option")
         (include_min: bool) (include_max: bool) (range_string: "string option")

datatype 'v version_set =
    RangeSet "'v range_m"
  | UnionSet "'v range_m list"

datatype 'v constraint_m = Constraint string "'v version_set"

text \<open>The answer of \<open>discover_dependencies_and_versions\<close>: the dictionary with the keys
  \<open>available\<close>, \<open>version\<close> and \<open>requires\<close>.\<close>

record discovery =
  available :: "string list"
  version :: string
  requires :: "string list"

text \<open>The imported functions. Each one that can raise returns a sum.\<close>

record 'v env =
  Requirement_parse :: "string \<Rightarrow> error + requirement"
  Version_parse :: "string \<Rightarrow> error + 'v"
  Version_str :: "'v \<Rightarrow> string"
  parse_constraint :: "string \<Rightarrow> error + 'v version_constraint"
  VersionRange_str :: "'v version_range \<Rightarrow> string"
  Union_of :: "'v range_m list \<Rightarrow> 'v version_set"
  allows_any :: "'v version_set \<Rightarrow> 'v range_m \<Rightarrow> bool"
  constraint_str :: "'v version_set \<Rightarrow> string"
  discover_dependencies_and_versions ::
    "string \<Rightarrow> string \<Rightarrow> string \<Rightarrow> string \<Rightarrow> error + discovery"

subsection \<open>\<open>class Dependency\<close>\<close>

record 'v dependency =
  name :: string
  constraint :: "'v version_constraint"
  pretty_constraint :: string

text \<open>\<open>Dependency.__init__\<close>: \<open>constraint or "*"\<close> replaces the empty string by \<open>*\<close>.\<close>

definition Dependency_init ::
  "'v env \<Rightarrow> string \<Rightarrow> string \<Rightarrow> error + 'v dependency" where
  "Dependency_init env nm c =
     (case parse_constraint env (if c = [] then ''*'' else c) of
        Inl e \<Rightarrow> Inl e
      | Inr parsed \<Rightarrow> Inr \<lparr>name = nm, constraint = parsed, pretty_constraint = c\<rparr>)"

text \<open>\<open>Dependency.__str__\<close>.\<close>

definition Dependency_str :: "'v dependency \<Rightarrow> string" where
  "Dependency_str d = pretty_constraint d"

subsection \<open>String helpers\<close>

text \<open>\<open>sep.join(xs)\<close>.\<close>

fun join :: "string \<Rightarrow> string list \<Rightarrow> string" where
  "join sep [] = []"
| "join sep [x] = x"
| "join sep (x # y # ys) = x @ sep @ join sep (y # ys)"

text \<open>\<open>",".join(["".join(tup) for tup in req.specs])\<close>.\<close>

definition specs_constraint :: "(string \<times> string) list \<Rightarrow> string" where
  "specs_constraint sp = join '','' (map (\<lambda>(comparator, ver). comparator @ ver) sp)"

text \<open>\<open>s.replace("||", "|")\<close> and \<open>s.replace(" ", "")\<close>.\<close>

fun replace_double_bar :: "string \<Rightarrow> string" where
  "replace_double_bar (a # b # cs) =
     (if a = CHR ''|'' \<and> b = CHR ''|'' then CHR ''|'' # replace_double_bar cs
      else a # replace_double_bar (b # cs))"
| "replace_double_bar cs = cs"

definition remove_spaces :: "string \<Rightarrow> string" where
  "remove_spaces s = filter (\<lambda>c. c \<noteq> CHR '' '') s"

subsection \<open>\<open>class PackageSource\<close>: the state\<close>

text \<open>
  \<open>_packages\<close> is a dictionary from names to dictionaries from versions to either
  \<open>None\<close> (dependencies not yet discovered) or a list of dependencies. The inner
  dictionary is an association list in insertion order (\<open>AList.update\<close> overwrites in
  place or appends, as a Python dict does). \<open>root\<close> is the attribute the base class
  sets. \<open>calls\<close> is not an attribute: it records the first argument of every call of
  \<open>discover_dependencies_and_versions\<close>, oldest first.
\<close>

type_synonym 'v entries = "('v \<times> 'v dependency list option) list"

record 'v package_source =
  root :: string
  root_version :: 'v
  root_dependencies :: "'v dependency list"
  packages :: "string \<rightharpoonup> 'v entries"
  cache_dir :: string
  index_url :: string
  extra_index_url :: string
  calls :: "string list"

text \<open>\<open>PackageSource.__init__\<close>; \<open>rt\<close> is the root package the base class creates.\<close>

definition PackageSource_init ::
  "'v env \<Rightarrow> string \<Rightarrow> string \<Rightarrow> string \<Rightarrow> string \<Rightarrow> error + 'v package_source" where
  "PackageSource_init env rt cdir iurl xurl =
     (case Version_parse env ''0.0.0'' of
        Inl e \<Rightarrow> Inl e
      | Inr v0 \<Rightarrow>
          Inr \<lparr>root = rt, root_version = v0, root_dependencies = [],
               packages = Map.empty, cache_dir = cdir, index_url = iurl,
               extra_index_url = xurl, calls = []\<rparr>)"

text \<open>The inner dictionary \<open>self._packages[name]\<close> once \<open>add\<close> has created it if absent.\<close>

definition entries_of :: "'v package_source \<Rightarrow> string \<Rightarrow> 'v entries" where
  "entries_of s nm = (case packages s nm of None \<Rightarrow> [] | Some es \<Rightarrow> es)"

text \<open>\<open>self._packages[package][version]\<close>: either subscript can raise \<open>KeyError\<close>.\<close>

definition packages_getitem ::
  "'v package_source \<Rightarrow> string \<Rightarrow> 'v \<Rightarrow> error + 'v dependency list option" where
  "packages_getitem s package v =
     (case packages s package of
        None \<Rightarrow> Inl KeyError
      | Some es \<Rightarrow> (case map_of es v of None \<Rightarrow> Inl KeyError | Some d \<Rightarrow> Inr d))"

subsection \<open>\<open>PackageSource.add\<close>\<close>

text \<open>The loop of \<open>add\<close> that turns requirement strings into dependencies; the first
  string that fails to parse raises.\<close>

fun make_dependencies :: "'v env \<Rightarrow> string list \<Rightarrow> error + 'v dependency list" where
  "make_dependencies env [] = Inr []"
| "make_dependencies env (dep # deps) =
     (case Requirement_parse env dep of
        Inl e \<Rightarrow> Inl e
      | Inr req \<Rightarrow>
          (case Dependency_init env (key req) (specs_constraint (specs req)) of
             Inl e \<Rightarrow> Inl e
           | Inr d \<Rightarrow>
               (case make_dependencies env deps of
                  Inl e \<Rightarrow> Inl e
                | Inr ds \<Rightarrow> Inr (d # ds))))"

definition set_entry ::
  "'v package_source \<Rightarrow> string \<Rightarrow> 'v \<Rightarrow> 'v dependency list option \<Rightarrow> 'v package_source" where
  "set_entry s nm v d = s\<lparr>packages := (packages s)(nm \<mapsto> AList.update v d (entries_of s nm))\<rparr>"

definition add ::
  "'v env \<Rightarrow> 'v package_source \<Rightarrow> string \<Rightarrow> string \<Rightarrow> string list option
     \<Rightarrow> (error + unit) \<times> 'v package_source" where
  "add env s nm ver deps =
     (case Version_parse env ver of
        Inl e \<Rightarrow> (Inl e, s)
      | Inr v \<Rightarrow>
          let s1 = (if packages s nm = None then s\<lparr>packages := (packages s)(nm \<mapsto> [])\<rparr> else s)
          in if map_of (entries_of s1 nm) v \<noteq> None
                \<and> \<not> (deps = None \<or> map_of (entries_of s1 nm) v = Some None)
             then (Inl (ValueError (nm @ '' ('' @ Version_str env v @ '') already exists'')), s1)
             else (case deps of
                     None \<Rightarrow> (Inr (), set_entry s1 nm v None)
                   | Some ds \<Rightarrow>
                       (case make_dependencies env ds of
                          Inl e \<Rightarrow> (Inl e, s1)
                        | Inr dependencies \<Rightarrow> (Inr (), set_entry s1 nm v (Some dependencies)))))"

subsection \<open>\<open>PackageSource.discover_and_add\<close>\<close>

text \<open>\<open>for version in to_create["available"]: self.add(req.key, version)\<close>.\<close>

fun add_available ::
  "'v env \<Rightarrow> 'v package_source \<Rightarrow> string \<Rightarrow> string list \<Rightarrow> (error + unit) \<times> 'v package_source" where
  "add_available env s nm [] = (Inr (), s)"
| "add_available env s nm (ver # vers) =
     (case add env s nm ver None of
        (Inl e, s1) \<Rightarrow> (Inl e, s1)
      | (Inr u, s1) \<Rightarrow> add_available env s1 nm vers)"

definition discover_and_add ::
  "'v env \<Rightarrow> 'v package_source \<Rightarrow> string \<Rightarrow> (error + unit) \<times> 'v package_source" where
  "discover_and_add env s package =
     (case Requirement_parse env package of
        Inl e \<Rightarrow> (Inl e, s)
      | Inr req \<Rightarrow>
          let s1 = s\<lparr>calls := calls s @ [package]\<rparr>
          in (case discover_dependencies_and_versions env package
                     (index_url s) (extra_index_url s) (cache_dir s) of
                Inl e \<Rightarrow> (Inl e, s1)
              | Inr to_create \<Rightarrow>
                  (case add_available env s1 (key req) (available to_create) of
                     (Inl e, s2) \<Rightarrow> (Inl e, s2)
                   | (Inr u, s2) \<Rightarrow>
                       add env s2 (key req) (version to_create) (Some (requires to_create)))))"

subsection \<open>\<open>PackageSource.root_dep\<close>\<close>

definition root_dep ::
  "'v env \<Rightarrow> 'v package_source \<Rightarrow> string \<Rightarrow> (error + unit) \<times> 'v package_source" where
  "root_dep env s package =
     (case Requirement_parse env package of
        Inl e \<Rightarrow> (Inl e, s)
      | Inr req \<Rightarrow>
          (case Dependency_init env (key req) (specs_constraint (specs req)) of
             Inl e \<Rightarrow> (Inl e, s)
           | Inr d \<Rightarrow>
               discover_and_add env (s\<lparr>root_dependencies := root_dependencies s @ [d]\<rparr>)
                 (req_str req)))"

subsection \<open>\<open>PackageSource._versions_for\<close>\<close>

text \<open>The method is named \<open>versions_for_impl\<close> here, as a name cannot start with an
  underscore. The base class, which is not among the sources, calls it from
  \<open>versions_for\<close>.\<close>

text \<open>\<open>str(constraint)\<close>, where \<open>constraint\<close> may be \<open>None\<close>.\<close>

definition constraint_text :: "'v env \<Rightarrow> 'v version_set option \<Rightarrow> string" where
  "constraint_text env c = (case c of None \<Rightarrow> ''None'' | Some k \<Rightarrow> constraint_str env k)"

text \<open>The test of the loop: \<open>not constraint or constraint.allows_any(Range(version,
  version, True, True))\<close>. A range or union object is truthy, so \<open>not constraint\<close> holds
  for \<open>None\<close> only.\<close>

definition version_matches :: "'v env \<Rightarrow> 'v version_set option \<Rightarrow> 'v \<Rightarrow> bool" where
  "version_matches env c v =
     (case c of
        None \<Rightarrow> True
      | Some k \<Rightarrow> allows_any env k (RangeM (Some v) (Some v) True True None))"

text \<open>\<open>sorted(versions, reverse=True)\<close>: versions that compare equal are equal, so the
  descending stable sort is the reverse of the ascending one.\<close>

definition sorted_reverse :: "('v::linorder) list \<Rightarrow> 'v list" where
  "sorted_reverse vs = rev (sort vs)"

definition versions_for_impl ::
  "('v::linorder) env \<Rightarrow> 'v package_source \<Rightarrow> string \<Rightarrow> 'v version_set option
     \<Rightarrow> (error + 'v list) \<times> 'v package_source" where
  "versions_for_impl env s package c =
     (case (if packages s package = None
            then discover_and_add env s
                   (package @ remove_spaces (replace_double_bar (constraint_text env c)))
            else (Inr (), s)) of
        (Inl e, s1) \<Rightarrow> (Inl e, s1)
      | (Inr u, s1) \<Rightarrow>
          (case packages s1 package of
             None \<Rightarrow> (Inr [], s1)
           | Some es \<Rightarrow>
               (Inr (sorted_reverse (filter (version_matches env c) (map fst es))), s1)))"

subsection \<open>\<open>PackageSource.dependencies_for\<close>\<close>

text \<open>The result is the stored value: a list, or \<open>None\<close> when the entry is still
  undiscovered after the discovery.\<close>

definition dependencies_for ::
  "'v env \<Rightarrow> 'v package_source \<Rightarrow> string \<Rightarrow> 'v
     \<Rightarrow> (error + 'v dependency list option) \<times> 'v package_source" where
  "dependencies_for env s package v =
     (if package = root s then (Inr (Some (root_dependencies s)), s)
      else (case packages_getitem s package v of
              Inl e \<Rightarrow> (Inl e, s)
            | Inr (Some deps) \<Rightarrow> (packages_getitem s package v, s)
            | Inr None \<Rightarrow>
                (case discover_and_add env s (package @ ''=='' @ Version_str env v) of
                   (Inl e, s1) \<Rightarrow> (Inl e, s1)
                 | (Inr u, s1) \<Rightarrow> (packages_getitem s1 package v, s1))))"

subsection \<open>\<open>PackageSource.convert_dependency\<close>\<close>

definition convert_range :: "'v env \<Rightarrow> 'v version_range \<Rightarrow> 'v range_m" where
  "convert_range env r =
     RangeM (vr_min r) (vr_max r) (vr_include_min r) (vr_include_max r)
       (Some (VersionRange_str env r))"

definition convert_dependency :: "'v env \<Rightarrow> 'v dependency \<Rightarrow> 'v constraint_m" where
  "convert_dependency env d =
     Constraint (name d)
       (case constraint d of
          VersionRange r \<Rightarrow>
            RangeSet (RangeM (vr_min r) (vr_max r) (vr_include_min r) (vr_include_max r)
                        (Some (pretty_constraint d)))
        | VersionUnion rs \<Rightarrow> Union_of env (map (convert_range env) rs))"

subsection \<open>What the cache records for a package and a version\<close>

text \<open>\<open>None\<close>: the version is not a key of \<open>self._packages[name]\<close> (or the name is
  unknown); \<open>Some None\<close>: the placeholder, dependencies not yet discovered;
  \<open>Some (Some ds)\<close>: a concrete dependency list.\<close>

definition recorded ::
  "'v package_source \<Rightarrow> string \<Rightarrow> 'v \<Rightarrow> 'v dependency list option option" where
  "recorded s nm v = map_of (entries_of s nm) v"

subsection \<open>Equality of \<open>Dependency\<close> objects\<close>

text \<open>\<open>class Dependency\<close> defines \<open>__init__\<close> and \<open>__str__\<close> and no \<open>__eq__\<close>, so
  \<open>==\<close> on two of its instances is the default of \<open>object\<close>: identity. An object is
  its address (\<open>id()\<close>) with the values of its attributes.\<close>

type_synonym 'v dependency_object = "nat \<times> 'v dependency"

definition Dependency_eq :: "'v dependency_object \<Rightarrow> 'v dependency_object \<Rightarrow> bool" where
  "Dependency_eq a b = (fst a = fst b)"

section \<open>The constraint parser, from the specification\<close>

text \<open>
  \<open>parse_constraint\<close> belongs to \<open>pipgrip.libs.semver\<close>, which is not among the
  sources. The definitions of this section follow the specification instead: the
  grammar \<open>comparator version[,comparator version]...\<close> with the comparators
  \<open>==, !=, >=, <=, >, <\<close>, where "multiple comma-joined clauses are ANDed into one
  Range; no clauses means any version (open range)".
\<close>

text \<open>Modelled from the spec: the open range of \<open>parse_constraint\<close> (missing), "any
  version": both bounds absent.\<close>

definition any_version :: "'v version_range" where
  "any_version = \<lparr>vr_min = None, vr_max = None, vr_include_min = False, vr_include_max = False\<rparr>"















section \<open>A small package index, for concrete runs\<close>

text \<open>Versions are natural numbers. Package \<open>a\<close> has the versions 1 and 2; version 1
  requires \<open>b>=1,<3\<close>, version 2 requires nothing. The requirement \<open>zNone\<close> has the key
  \<open>znone\<close> and no versions.\<close>

definition t_requirements :: "(string \<times> requirement) list" where
  "t_requirements =
     [(''a'', \<lparr>key = ''a'', specs = [], req_str = ''a''\<rparr>),
      (''a==1'', \<lparr>key = ''a'', specs = [(''=='', ''1'')], req_str = ''a==1''\<rparr>),
      (''a==2'', \<lparr>key = ''a'', specs = [(''=='', ''2'')], req_str = ''a==2''\<rparr>),
      (''b>=1,<3'', \<lparr>key = ''b'', specs = [(''>='', ''1''), (''<'', ''3'')], req_str = ''b<3,>=1''\<rparr>),
      (''zNone'', \<lparr>key = ''znone'', specs = [], req_str = ''zNone''\<rparr>)]"

definition t_Requirement_parse :: "string \<Rightarrow> error + requirement" where
  "t_Requirement_parse s =
     (case map_of t_requirements s of None \<Rightarrow> Inl (RequirementParseError s) | Some r \<Rightarrow> Inr r)"

definition t_Version_parse :: "string \<Rightarrow> error + nat" where
  "t_Version_parse s =
     (case map_of [(''0.0.0'', 0), (''1'', 1), (''2'', 2), (''3'', 3)] s of
        None \<Rightarrow> Inl (ParseError s) | Some v \<Rightarrow> Inr v)"

definition t_Version_str :: "nat \<Rightarrow> string" where
  "t_Version_str v = (if v = 0 then ''0.0.0'' else if v = 1 then ''1'' else if v = 2 then ''2'' else ''3'')"

definition t_parse_constraint :: "string \<Rightarrow> error + nat version_constraint" where
  "t_parse_constraint s =
     (case map_of
        [(''*'', VersionRange any_version),
         (''==1'', VersionRange \<lparr>vr_min = Some 1, vr_max = Some 1, vr_include_min = True, vr_include_max = True\<rparr>),
         (''>=1,<3'', VersionRange \<lparr>vr_min = Some 1, vr_max = Some 3, vr_include_min = True, vr_include_max = False\<rparr>)] s of
        None \<Rightarrow> Inl (ParseError s) | Some c \<Rightarrow> Inr c)"

definition t_discover :: "string \<Rightarrow> string \<Rightarrow> string \<Rightarrow> string \<Rightarrow> error + discovery" where
  "t_discover package iurl xurl cdir =
     (case map_of
        [(''a'', \<lparr>available = [''1'', ''2''], version = ''2'', requires = []\<rparr>),
         (''a==1'', \<lparr>available = [''1'', ''2''], version = ''1'', requires = [''b>=1,<3'']\<rparr>),
         (''a==2'', \<lparr>available = [''1'', ''2''], version = ''2'', requires = []\<rparr>),
         (''zNone'', \<lparr>available = [], version = ''1'', requires = []\<rparr>)] package of
        None \<Rightarrow> Inl (CollaboratorError package) | Some d \<Rightarrow> Inr d)"

fun t_contains :: "nat range_m \<Rightarrow> nat \<Rightarrow> bool" where
  "t_contains (RangeM lo hi ilo ihi str) v =
     ((case lo of None \<Rightarrow> True | Some l \<Rightarrow> l < v \<or> (ilo \<and> l = v)) \<and>
      (case hi of None \<Rightarrow> True | Some h \<Rightarrow> v < h \<or> (ihi \<and> v = h)))"

fun t_allows_any :: "nat version_set \<Rightarrow> nat range_m \<Rightarrow> bool" where
  "t_allows_any (RangeSet r) q = (case range_min q of None \<Rightarrow> False | Some v \<Rightarrow> t_contains r v)"
| "t_allows_any (UnionSet rs) q = (case range_min q of None \<Rightarrow> False | Some v \<Rightarrow> list_ex (\<lambda>r. t_contains r v) rs)"

definition t_env :: "nat env" where
  "t_env = \<lparr>Requirement_parse = t_Requirement_parse, Version_parse = t_Version_parse,
            Version_str = t_Version_str, parse_constraint = t_parse_constraint,
            VersionRange_str = (\<lambda>r. ''range''), Union_of = UnionSet,
            allows_any = t_allows_any, constraint_str = (\<lambda>k. ''>=1''),
            discover_dependencies_and_versions = t_discover\<rparr>"

definition t_init :: "nat package_source" where
  "t_init = \<lparr>root = ''_root_'', root_version = 0, root_dependencies = [],
               packages = Map.empty, cache_dir = ''cache'', index_url = ''index'',
               extra_index_url = '''', calls = []\<rparr>"

text \<open>The adapter after \<open>root_dep("a")\<close> on the fresh adapter.\<close>

definition t_rooted :: "nat package_source" where
  "t_rooted =
     t_init\<lparr>root_dependencies :=
                [\<lparr>name = ''a'', constraint = VersionRange any_version, pretty_constraint = ''''\<rparr>],
             packages := [''a'' \<mapsto> [(1, None), (2, Some [])]],
             calls := [''a'']\<rparr>"

text \<open>Two dependencies on \<open>b\<close>: one with a range, one with a union of two ranges.\<close>

definition t_dep_range :: "nat dependency" where
  "t_dep_range =
     \<lparr>name = ''b'',
      constraint = VersionRange \<lparr>vr_min = Some 1, vr_max = Some 3, vr_include_min = True,
                                 vr_include_max = False\<rparr>,
      pretty_constraint = ''>=1,<3''\<rparr>"

definition t_dep_union :: "nat dependency" where
  "t_dep_union =
     \<lparr>name = ''b'',
      constraint = VersionUnion
        [\<lparr>vr_min = None, vr_max = Some 1, vr_include_min = False, vr_include_max = False\<rparr>,
         \<lparr>vr_min = Some 2, vr_max = None, vr_include_min = True, vr_include_max = False\<rparr>],
      pretty_constraint = ''<1 || >=2''\<rparr>"

text \<open>The adapter after \<open>dependencies_for("a", 1)\<close>, and then after
  \<open>dependencies_for("a", 2)\<close>.\<close>

definition t_after_1 :: "nat package_source" where
  "t_after_1 =
     t_rooted\<lparr>packages := [''a'' \<mapsto> [(1, Some [t_dep_range]), (2, None)]],
               calls := [''a'', ''a==1'']\<rparr>"

definition t_after_2 :: "nat package_source" where
  "t_after_2 =
     t_rooted\<lparr>packages := [''a'' \<mapsto> [(1, None), (2, Some [])]],
               calls := [''a'', ''a==1'', ''a==2'']\<rparr>"

section \<open>Properties\<close>

subsection \<open>Sorting and filtering\<close>

lemma mset_sorted_reverse: "mset (sorted_reverse vs) = mset vs"
  by (simp add: sorted_reverse_def)

lemma descending_sorted_reverse: "sorted_wrt (\<lambda>a b. b \<le> a) (sorted_reverse vs)"
  by (simp add: sorted_reverse_def sorted_wrt_rev)

lemma version_matches_iff:
  "version_matches env c v \<longleftrightarrow>
     (c = None \<or> (\<exists>k. c = Some k \<and> allows_any env k (RangeM (Some v) (Some v) True True None)))"
  by (cases c) (simp_all add: version_matches_def)

lemma entries_of_set_entry:
  "entries_of (set_entry s nm v d) nm' =
     (if nm' = nm then AList.update v d (entries_of s nm) else entries_of s nm')"
  by (simp add: entries_of_def set_entry_def)

lemma recorded_set_entry:
  "recorded (set_entry s nm v d) nm' v' =
     (if nm' = nm \<and> v' = v then Some d else recorded s nm' v')"
  by (simp add: recorded_def entries_of_set_entry update_conv')

lemma calls_set_entry: "calls (set_entry s nm v d) = calls s"
  by (simp add: set_entry_def)

lemma packages_set_entry_other:
  "nm' \<noteq> nm \<Longrightarrow> packages (set_entry s nm v d) nm' = packages s nm'"
  by (simp add: set_entry_def)

lemma set_entry_fresh_dict:
  "set_entry (s\<lparr>packages := (packages s)(nm \<mapsto> [])\<rparr>) nm v d = set_entry s nm v d" if "packages s nm = None"
  using that by (simp add: set_entry_def entries_of_def)

lemma add_placeholder:
  assumes "Version_parse env ver = Inr v"
  shows "add env s nm ver None = (Inr (), set_entry s nm v None)"
  using assms by (simp add: add_def Let_def set_entry_fresh_dict)

lemma add_raises_duplicate:
  assumes "Version_parse env ver = Inr v" and "recorded s nm v = Some (Some old)"
  shows "add env s nm ver (Some ds) =
           (Inl (ValueError (nm @ '' ('' @ Version_str env v @ '') already exists'')), s)"
proof -
  from assms(2) have "packages s nm \<noteq> None"
    by (auto simp: recorded_def entries_of_def split: option.splits)
  with assms show ?thesis
    by (auto simp: add_def Let_def recorded_def)
qed

lemma add_concrete:
  assumes "Version_parse env ver = Inr v"
    and "recorded s nm v = None \<or> recorded s nm v = Some None"
    and "make_dependencies env ds = Inr dl"
  shows "add env s nm ver (Some ds) = (Inr (), set_entry s nm v (Some dl))"
proof (cases "packages s nm")
  case None
  with assms show ?thesis
    by (simp add: add_def Let_def set_entry_fresh_dict entries_of_def)
next
  case (Some es)
  with assms show ?thesis
    by (auto simp: add_def Let_def recorded_def)
qed

lemma add_concrete_parse_error:
  assumes "Version_parse env ver = Inr v"
    and "recorded s nm v = None \<or> recorded s nm v = Some None"
    and "make_dependencies env ds = Inl e"
  shows "fst (add env s nm ver (Some ds)) = Inl e"
proof (cases "packages s nm")
  case None
  with assms show ?thesis
    by (simp add: add_def Let_def entries_of_def)
next
  case (Some es)
  with assms show ?thesis
    by (auto simp: add_def Let_def recorded_def)
qed

lemma add_concrete_returns:
  assumes "add env s nm ver (Some ds) = (Inr u, s')"
  shows "\<exists>v dl. Version_parse env ver = Inr v \<and> make_dependencies env ds = Inr dl
           \<and> s' = set_entry s nm v (Some dl)"
  using assms
  by (auto simp: add_def Let_def set_entry_fresh_dict split: sum.splits if_splits)

lemma add_available_returns:
  assumes "add_available env s nm vers = (Inr u, s')"
  shows "calls s' = calls s
         \<and> (\<forall>nm'. nm' \<noteq> nm \<longrightarrow> packages s' nm' = packages s nm')
         \<and> (\<forall>v. recorded s' nm v =
                (if \<exists>ver \<in> set vers. Version_parse env ver = Inr v then Some None
                 else recorded s nm v))"
  using assms
proof (induction vers arbitrary: s)
  case Nil
  then show ?case by simp
next
  case (Cons ver vers)
  then obtain v where v: "Version_parse env ver = Inr v"
    by (cases "Version_parse env ver") (auto simp: add_def)
  from Cons.prems have rest: "add_available env (set_entry s nm v None) nm vers = (Inr u, s')"
    by (simp add: add_placeholder [OF v])
  note ih = Cons.IH [OF rest]
  show ?case
    using ih v by (auto simp: calls_set_entry recorded_set_entry packages_set_entry_other)
qed





lemma discover_and_add_returns:
  assumes "discover_and_add env s package = (Inr u, s')"
  shows "\<exists>req d v' dl.
           Requirement_parse env package = Inr req
         \<and> discover_dependencies_and_versions env package
               (index_url s) (extra_index_url s) (cache_dir s) = Inr d
         \<and> Version_parse env (version d) = Inr v'
         \<and> make_dependencies env (requires d) = Inr dl
         \<and> (\<forall>nm'. nm' \<noteq> key req \<longrightarrow> packages s' nm' = packages s nm')
         \<and> (\<forall>v. recorded s' (key req) v =
                (if v = v' then Some (Some dl)
                 else if \<exists>ver \<in> set (available d). Version_parse env ver = Inr v
                      then Some None
                      else recorded s (key req) v))"
proof -
  obtain req where req: "Requirement_parse env package = Inr req"
    using assms by (cases "Requirement_parse env package") (auto simp: discover_and_add_def)
  let ?s1 = "s\<lparr>calls := calls s @ [package]\<rparr>"
  obtain d where d: "discover_dependencies_and_versions env package
                       (index_url s) (extra_index_url s) (cache_dir s) = Inr d"
    using assms req
    by (cases "discover_dependencies_and_versions env package
                 (index_url s) (extra_index_url s) (cache_dir s)")
       (auto simp: discover_and_add_def)
  obtain r s2 where loop: "add_available env ?s1 (key req) (available d) = (r, s2)"
    by (cases "add_available env ?s1 (key req) (available d)")
  from assms req d loop obtain u2 where r: "r = Inr u2"
    by (cases r) (auto simp: discover_and_add_def)
  from assms req d loop r
  have last: "add env s2 (key req) (version d) (Some (requires d)) = (Inr u, s')"
    by (simp add: discover_and_add_def)
  from add_concrete_returns [OF last] obtain v' dl where
    v': "Version_parse env (version d) = Inr v'" and
    dl: "make_dependencies env (requires d) = Inr dl" and
    s': "s' = set_entry s2 (key req) v' (Some dl)"
    by blast
  note av = add_available_returns [OF loop [unfolded r]]
  have other: "\<forall>nm'. nm' \<noteq> key req \<longrightarrow> packages s' nm' = packages s nm'"
    using av by (simp add: s' packages_set_entry_other)
  have rec1: "recorded ?s1 (key req) v = recorded s (key req) v" for v
    by (simp add: recorded_def entries_of_def)
  have this_one: "\<forall>v. recorded s' (key req) v =
                (if v = v' then Some (Some dl)
                 else if \<exists>ver \<in> set (available d). Version_parse env ver = Inr v
                      then Some None
                      else recorded s (key req) v)"
    using av by (simp add: s' recorded_set_entry rec1)
  from req d v' dl other this_one show ?thesis by blast
qed

lemmas t_defs = t_env_def t_init_def t_discover_def t_parse_constraint_def any_version_def
  t_Version_str_def t_Version_parse_def t_Requirement_parse_def t_requirements_def

lemma t_root_dep: "root_dep t_env t_init ''a'' = (Inr (), t_rooted)"
  by (simp add: root_dep_def discover_and_add_def Dependency_init_def specs_constraint_def
      add_def set_entry_def entries_of_def Let_def t_rooted_def t_defs)

subsection \<open>The root package\<close>

text \<open>
  Claim C7. For the synthetic root package \<open>dependencies_for\<close> returns the root
  dependency list held by the adapter. The adapter is left as it was, so no discovery
  call is made, and the answer is the same whatever the per-package cache holds.
\<close>

theorem dependencies_for_root:
  "dependencies_for env s (root s) v = (Inr (Some (root_dependencies s)), s)
   \<and> dependencies_for env (s\<lparr>packages := pk\<rparr>) (root s) v
       = (Inr (Some (root_dependencies s)), s\<lparr>packages := pk\<rparr>)"
  by (simp add: dependencies_for_def)

subsection \<open>Packages that were never registered\<close>

text \<open>
  Claim C8. For a package other than the root that is not a key of the cache,
  \<open>dependencies_for\<close> raises \<open>KeyError\<close> and leaves the adapter as it was: no discovery
  is triggered. Conversely, whenever the call does not raise \<open>KeyError\<close>, the package is
  the root or was registered before.
\<close>

theorem dependencies_for_unregistered:
  "(package \<noteq> root s \<and> packages s package = None
      \<longrightarrow> dependencies_for env s package v = (Inl KeyError, s))
   \<and> (fst (dependencies_for env s package v) \<noteq> Inl KeyError
      \<longrightarrow> package = root s \<or> packages s package \<noteq> None)"
proof -
  have unregistered: "dependencies_for env s package v = (Inl KeyError, s)"
    if "package \<noteq> root s" and "packages s package = None"
    using that by (simp add: dependencies_for_def packages_getitem_def)
  show ?thesis
  proof (intro conjI impI)
    assume "package \<noteq> root s \<and> packages s package = None"
    then show "dependencies_for env s package v = (Inl KeyError, s)"
      using unregistered by blast
  next
    assume ok: "fst (dependencies_for env s package v) \<noteq> Inl KeyError"
    show "package = root s \<or> packages s package \<noteq> None"
    proof (rule ccontr)
      assume "\<not> (package = root s \<or> packages s package \<noteq> None)"
      then have "dependencies_for env s package v = (Inl KeyError, s)"
        using unregistered by blast
      with ok show False by simp
    qed
  qed
qed

theorem dependencies_for_unregistered_witness:
  "(''b'' \<noteq> root t_rooted \<and> packages t_rooted ''b'' = None
    \<and> dependencies_for t_env t_rooted ''b'' 1 = (Inl KeyError, t_rooted))
   \<and> (fst (dependencies_for t_env t_rooted ''a'' 2) \<noteq> Inl KeyError
    \<and> packages t_rooted ''a'' \<noteq> None)"
proof -
  have h1: "''b'' \<noteq> root t_rooted \<and> packages t_rooted ''b'' = None"
    by (simp add: t_rooted_def t_init_def)
  have h2: "fst (dependencies_for t_env t_rooted ''a'' 2) \<noteq> Inl KeyError"
    by (simp add: dependencies_for_def packages_getitem_def t_rooted_def t_init_def)
  from dependencies_for_unregistered [of "''b''" t_rooted t_env 1] h1
  have c1: "dependencies_for t_env t_rooted ''b'' 1 = (Inl KeyError, t_rooted)" by blast
  from dependencies_for_unregistered [of "''a''" t_rooted t_env 2] h2
  have c2: "''a'' = root t_rooted \<or> packages t_rooted ''a'' \<noteq> None" by blast
  have "''a'' \<noteq> root t_rooted" by (simp add: t_rooted_def t_init_def)
  with c2 have "packages t_rooted ''a'' \<noteq> None" by blast
  with h1 h2 c1 show ?thesis by blast
qed

subsection \<open>Conversion of dependencies\<close>

text \<open>
  Claim C6. When the parsed constraint of a dependency is a single version range,
  \<open>convert_dependency\<close> returns a \<open>Constraint\<close> for the dependency's name whose range
  has the same \<open>min\<close>, \<open>max\<close>, \<open>include_min\<close> and \<open>include_max\<close>. When it is a union,
  the \<open>Constraint\<close> holds \<open>Union.of\<close> applied to ranges that carry, member by member and
  in order, the same bounds and inclusion flags. The result depends on the dependency
  only: equal dependencies give equal constraints.
\<close>

theorem convert_dependency_preserves_bounds:
  "(constraint d = VersionRange r \<longrightarrow>
      convert_dependency env d =
        Constraint (name d)
          (RangeSet (RangeM (vr_min r) (vr_max r) (vr_include_min r) (vr_include_max r)
                       (Some (pretty_constraint d)))))
   \<and> (constraint d = VersionUnion rs \<longrightarrow>
        (\<exists>ms. convert_dependency env d = Constraint (name d) (Union_of env ms)
            \<and> map range_min ms = map vr_min rs
            \<and> map range_max ms = map vr_max rs
            \<and> map include_min ms = map vr_include_min rs
            \<and> map include_max ms = map vr_include_max rs))
   \<and> (d = d' \<longrightarrow> convert_dependency env d = convert_dependency env d')"
  by (auto simp: convert_dependency_def convert_range_def comp_def)

theorem convert_dependency_preserves_bounds_witness:
  "convert_dependency t_env t_dep_range =
     Constraint ''b'' (RangeSet (RangeM (Some 1) (Some 3) True False (Some ''>=1,<3'')))
   \<and> (\<exists>ms. convert_dependency t_env t_dep_union = Constraint ''b'' (Union_of t_env ms)
         \<and> map range_min ms = [None, Some 2]
         \<and> map range_max ms = [Some 1, None]
         \<and> map include_min ms = [False, True]
         \<and> map include_max ms = [False, False])
   \<and> convert_dependency t_env t_dep_union = convert_dependency t_env t_dep_union"
proof -
  let ?r = "\<lparr>vr_min = Some 1, vr_max = Some (3::nat), vr_include_min = True,
              vr_include_max = False\<rparr>"
  let ?rs = "[\<lparr>vr_min = None, vr_max = Some (1::nat), vr_include_min = False,
               vr_include_max = False\<rparr>,
             \<lparr>vr_min = Some 2, vr_max = None, vr_include_min = True,
               vr_include_max = False\<rparr>]"
  have h1: "constraint t_dep_range = VersionRange ?r"
    by (simp add: t_dep_range_def)
  have h2: "constraint t_dep_union = VersionUnion ?rs"
    by (simp add: t_dep_union_def)
  from convert_dependency_preserves_bounds [of t_dep_range ?r t_env ?rs t_dep_range] h1
  have c1: "convert_dependency t_env t_dep_range =
     Constraint ''b'' (RangeSet (RangeM (Some 1) (Some 3) True False (Some ''>=1,<3'')))"
    by (simp add: t_dep_range_def)
  from convert_dependency_preserves_bounds [of t_dep_union ?r t_env ?rs t_dep_union] h2
  have c2: "\<exists>ms. convert_dependency t_env t_dep_union = Constraint ''b'' (Union_of t_env ms)
         \<and> map range_min ms = [None, Some 2]
         \<and> map range_max ms = [Some 1, None]
         \<and> map include_min ms = [False, True]
         \<and> map include_max ms = [False, False]"
    by (simp add: t_dep_union_def)
  from c1 c2 show ?thesis by simp
qed

lemma versions_for_impl_known:
  assumes "packages s package = Some es"
  shows "versions_for_impl env s package c =
           (Inr (sorted_reverse (filter (version_matches env c) (map fst es))), s)"
  using assms by (simp add: versions_for_impl_def)

lemma versions_for_impl_returns:
  assumes "versions_for_impl env s package c = (Inr vs, s')"
  shows "vs = sorted_reverse (filter (version_matches env c) (map fst (entries_of s' package)))"
  using assms
  by (auto simp: versions_for_impl_def entries_of_def sorted_reverse_def
           split: if_splits prod.splits sum.splits option.splits)

subsection \<open>The versions of a package\<close>

text \<open>
  Claim C1. Whenever \<open>_versions_for\<close> returns, its result holds exactly the versions
  known for the package (the keys of its dictionary in the state the call leaves) for
  which the constraint is absent or \<open>constraint.allows_any\<close> holds of the inclusive
  range from the version to itself, each as often as it is a key, and the result is in
  descending order. For a package that is already in the cache the call returns and
  leaves the adapter as it was.
\<close>

theorem versions_for_impl_exact_descending:
  "(\<forall>vs s'. versions_for_impl env s package c = (Inr vs, s') \<longrightarrow>
       mset vs =
         {#v \<in># mset (map fst (entries_of s' package)).
            c = None \<or>
            (\<exists>k. c = Some k \<and> allows_any env k (RangeM (Some v) (Some v) True True None))#}
       \<and> sorted_wrt (\<lambda>a b. b \<le> a) vs)
   \<and> (packages s package \<noteq> None \<longrightarrow>
        (\<exists>vs. versions_for_impl env s package c = (Inr vs, s)))"
proof (intro conjI allI impI)
  fix vs s'
  assume "versions_for_impl env s package c = (Inr vs, s')"
  then have vs: "vs = sorted_reverse
                   (filter (version_matches env c) (map fst (entries_of s' package)))"
    by (rule versions_for_impl_returns)
  show "mset vs =
         {#v \<in># mset (map fst (entries_of s' package)).
            c = None \<or>
            (\<exists>k. c = Some k \<and> allows_any env k (RangeM (Some v) (Some v) True True None))#}"
    unfolding vs mset_sorted_reverse mset_filter
    by (rule filter_mset_cong) (simp_all add: version_matches_iff)
  show "sorted_wrt (\<lambda>a b. b \<le> a) vs"
    unfolding vs by (rule descending_sorted_reverse)
next
  assume "packages s package \<noteq> None"
  then obtain es where "packages s package = Some es" by blast
  then show "\<exists>vs. versions_for_impl env s package c = (Inr vs, s)"
    by (simp add: versions_for_impl_known)
qed

theorem versions_for_impl_exact_descending_witness:
  "versions_for_impl t_env t_rooted ''a'' (Some (RangeSet (RangeM (Some 1) (Some 2) True False None)))
     = (Inr [1], t_rooted)
   \<and> mset [1::nat] =
         {#v \<in># mset (map fst (entries_of t_rooted ''a'')).
            t_allows_any (RangeSet (RangeM (Some 1) (Some 2) True False None))
              (RangeM (Some v) (Some v) True True None)#}
   \<and> versions_for_impl t_env t_rooted ''a'' None = (Inr [2, 1], t_rooted)
   \<and> packages t_rooted ''a'' \<noteq> None"
proof -
  let ?c = "Some (RangeSet (RangeM (Some 1) (Some (2::nat)) True False None))"
  have known: "packages t_rooted ''a'' \<noteq> None"
    by (simp add: t_rooted_def t_init_def)
  have run: "versions_for_impl t_env t_rooted ''a'' ?c = (Inr [1], t_rooted)"
    by (simp add: versions_for_impl_def version_matches_def sorted_reverse_def
          t_rooted_def t_init_def t_env_def)
  have run2: "versions_for_impl t_env t_rooted ''a'' None = (Inr [2, 1], t_rooted)"
    by (simp add: versions_for_impl_def version_matches_def sorted_reverse_def
          t_rooted_def t_init_def t_env_def)
  from versions_for_impl_exact_descending [of t_env t_rooted "''a''" ?c] run
  have "mset [1::nat] =
         {#v \<in># mset (map fst (entries_of t_rooted ''a'')).
            t_allows_any (RangeSet (RangeM (Some 1) (Some 2) True False None))
              (RangeM (Some v) (Some v) True True None)#}"
    by (simp add: t_env_def)
  with run run2 known show ?thesis by simp
qed



subsection \<open>Registration\<close>

text \<open>
  Claim C3 says that the duplicate error is raised only when the new data conflicts
  with the recorded data. It is raised as well when the new list is the recorded one:
  version 2 of \<open>a\<close> is recorded with the empty dependency list, and registering the
  empty list for it again raises.
\<close>

theorem add_duplicate_identical_data:
  "recorded t_rooted ''a'' 2 = Some (Some [])
   \<and> make_dependencies t_env [] = Inr []
   \<and> add t_env t_rooted ''a'' ''2'' (Some [])
       = (Inl (ValueError ''a (2) already exists''), t_rooted)"
  by (simp add: recorded_def entries_of_def add_def Let_def t_rooted_def t_defs)

text \<open>
  Claim C3, amended. Let the version string parse. Registering a concrete dependency
  list for a name and version that already have a concrete list raises \<open>ValueError\<close>
  (the duplicate version error), whatever the two lists are, and leaves the adapter as
  it was. Registering the placeholder never raises. Registering a concrete list whose
  requirement strings parse over a placeholder, or for a version not yet recorded,
  succeeds and records the list; when one of its requirement strings does not parse,
  the error is the parser's.
\<close>

theorem add_duplicate_rule:
  assumes "Version_parse env ver = Inr v"
  shows "(recorded s nm v = Some (Some old) \<longrightarrow>
            add env s nm ver (Some ds) =
              (Inl (ValueError (nm @ '' ('' @ Version_str env v @ '') already exists'')), s))
       \<and> add env s nm ver None = (Inr (), set_entry s nm v None)
       \<and> ((recorded s nm v = None \<or> recorded s nm v = Some None)
             \<and> make_dependencies env ds = Inr dl \<longrightarrow>
            add env s nm ver (Some ds) = (Inr (), set_entry s nm v (Some dl))
            \<and> recorded (set_entry s nm v (Some dl)) nm v = Some (Some dl))
       \<and> ((recorded s nm v = None \<or> recorded s nm v = Some None)
             \<and> make_dependencies env ds = Inl e \<longrightarrow>
            fst (add env s nm ver (Some ds)) = Inl e)"
  using assms
  by (simp add: add_raises_duplicate add_placeholder add_concrete add_concrete_parse_error
        recorded_set_entry)

theorem add_duplicate_rule_witness:
  "Version_parse t_env ''2'' = Inr 2
   \<and> recorded t_rooted ''a'' 2 = Some (Some [])
   \<and> add t_env t_rooted ''a'' ''2'' (Some [''b>=1,<3''])
       = (Inl (ValueError ''a (2) already exists''), t_rooted)
   \<and> Version_parse t_env ''1'' = Inr 1
   \<and> recorded t_rooted ''a'' 1 = Some None
   \<and> make_dependencies t_env [''b>=1,<3''] = Inr [t_dep_range]
   \<and> fst (add t_env t_rooted ''a'' ''1'' (Some [''b>=1,<3''])) = Inr ()
   \<and> recorded (snd (add t_env t_rooted ''a'' ''1'' (Some [''b>=1,<3'']))) ''a'' 1
       = Some (Some [t_dep_range])
   \<and> make_dependencies t_env [''c''] = Inl (RequirementParseError ''c'')
   \<and> fst (add t_env t_rooted ''a'' ''1'' (Some [''c''])) = Inl (RequirementParseError ''c'')"
proof -
  have p2: "Version_parse t_env ''2'' = Inr 2" and p1: "Version_parse t_env ''1'' = Inr 1"
    by (simp_all add: t_defs)
  have r2: "recorded t_rooted ''a'' 2 = Some (Some [])"
    and r1: "recorded t_rooted ''a'' 1 = Some None"
    by (simp_all add: recorded_def entries_of_def t_rooted_def t_init_def)
  have md: "make_dependencies t_env [''b>=1,<3''] = Inr [t_dep_range]"
    by (simp add: Dependency_init_def specs_constraint_def t_dep_range_def t_defs)
  from add_duplicate_rule [OF p2, of t_rooted "''a''" "[]" "[''b>=1,<3'']"] r2
  have c2: "add t_env t_rooted ''a'' ''2'' (Some [''b>=1,<3''])
       = (Inl (ValueError ''a (2) already exists''), t_rooted)"
    by (simp add: t_env_def t_Version_str_def)
  from add_duplicate_rule [OF p1, of t_rooted "''a''" "[]" "[''b>=1,<3'']" "[t_dep_range]"] r1 md
  have c1: "add t_env t_rooted ''a'' ''1'' (Some [''b>=1,<3''])
              = (Inr (), set_entry t_rooted ''a'' 1 (Some [t_dep_range]))
            \<and> recorded (set_entry t_rooted ''a'' 1 (Some [t_dep_range])) ''a'' 1
              = Some (Some [t_dep_range])"
    by simp
  have bad: "make_dependencies t_env [''c''] = Inl (RequirementParseError ''c'')"
    by (simp add: t_defs)
  from add_duplicate_rule [OF p1, of t_rooted "''a''" "[]" "[''c'']" "[]"
         "RequirementParseError ''c''"] r1 bad
  have c3: "fst (add t_env t_rooted ''a'' ''1'' (Some [''c''])) = Inl (RequirementParseError ''c'')"
    by simp
  from p1 p2 r1 r2 md c1 c2 bad c3 show ?thesis by simp
qed

text \<open>
  Claim C5. When a concrete dependency list is recorded for a name and version,
  \<open>add\<close> with \<open>deps=None\<close> succeeds and replaces the list by the placeholder. As
  \<open>discover_and_add\<close> adds every version of the \<open>available\<close> list in this way, a
  discovery that returns resets every populated entry of the discovered package whose
  version is in \<open>available\<close> and is not the version the discovery reports.
\<close>

theorem add_placeholder_overwrites_concrete:
  "(Version_parse env ver = Inr v \<and> recorded s nm v = Some (Some old) \<longrightarrow>
      (\<exists>s'. add env s nm ver None = (Inr (), s') \<and> recorded s' nm v = Some None))
   \<and> (\<forall>req d u s'.
         Requirement_parse env package = Inr req
       \<and> discover_dependencies_and_versions env package
            (index_url s) (extra_index_url s) (cache_dir s) = Inr d
       \<and> discover_and_add env s package = (Inr u, s')
       \<and> ver \<in> set (available d) \<and> Version_parse env ver = Inr v
       \<and> Version_parse env (version d) \<noteq> Inr v
       \<and> recorded s (key req) v = Some (Some old)
       \<longrightarrow> recorded s' (key req) v = Some None)"
proof (intro conjI allI impI)
  assume "Version_parse env ver = Inr v \<and> recorded s nm v = Some (Some old)"
  then show "\<exists>s'. add env s nm ver None = (Inr (), s') \<and> recorded s' nm v = Some None"
    by (simp add: add_placeholder recorded_set_entry)
next
  fix req d u s'
  assume a: "Requirement_parse env package = Inr req
       \<and> discover_dependencies_and_versions env package
            (index_url s) (extra_index_url s) (cache_dir s) = Inr d
       \<and> discover_and_add env s package = (Inr u, s')
       \<and> ver \<in> set (available d) \<and> Version_parse env ver = Inr v
       \<and> Version_parse env (version d) \<noteq> Inr v
       \<and> recorded s (key req) v = Some (Some old)"
  then have run: "discover_and_add env s package = (Inr u, s')" by blast
  from discover_and_add_returns [OF run] a
  show "recorded s' (key req) v = Some None"
    by auto
qed

lemma t_discover_a1:
  "discover_and_add t_env t_rooted ''a==1'' = (Inr (), t_after_1)"
  by (simp add: discover_and_add_def add_def set_entry_def entries_of_def Let_def
        Dependency_init_def specs_constraint_def t_dep_range_def t_rooted_def t_after_1_def
        t_defs)

lemma t_discover_a2:
  "discover_and_add t_env t_after_1 ''a==2'' = (Inr (), t_after_2)"
  by (simp add: discover_and_add_def add_def set_entry_def entries_of_def Let_def
        t_rooted_def t_after_1_def t_after_2_def t_defs)

lemma t_discover_a1_again:
  "discover_and_add t_env t_after_2 ''a==1'' =
     (Inr (), t_after_1\<lparr>calls := [''a'', ''a==1'', ''a==2'', ''a==1'']\<rparr>)"
  by (simp add: discover_and_add_def add_def set_entry_def entries_of_def Let_def
        Dependency_init_def specs_constraint_def t_dep_range_def t_rooted_def t_after_1_def
        t_after_2_def t_defs)

theorem add_placeholder_overwrites_concrete_witness:
  "Version_parse t_env ''2'' = Inr 2
   \<and> recorded t_rooted ''a'' 2 = Some (Some [])
   \<and> (\<exists>s'. add t_env t_rooted ''a'' ''2'' None = (Inr (), s') \<and> recorded s' ''a'' 2 = Some None)
   \<and> ''2'' \<in> set [''1'', ''2'']
   \<and> Version_parse t_env ''1'' \<noteq> Inr 2
   \<and> recorded (snd (discover_and_add t_env t_rooted ''a==1'')) ''a'' 2 = Some None"
proof -
  let ?req = "\<lparr>key = ''a'', specs = [(''=='', ''1'')], req_str = ''a==1''\<rparr>"
  let ?d = "\<lparr>available = [''1'', ''2''], version = ''1'', requires = [''b>=1,<3'']\<rparr>"
  let ?s' = "snd (discover_and_add t_env t_rooted ''a==1'')"
  have p2: "Version_parse t_env ''2'' = Inr 2" and p1: "Version_parse t_env ''1'' \<noteq> Inr 2"
    by (simp_all add: t_defs)
  have r2: "recorded t_rooted ''a'' 2 = Some (Some [])"
    by (simp add: recorded_def entries_of_def t_rooted_def t_init_def)
  have req: "Requirement_parse t_env ''a==1'' = Inr ?req"
    by (simp add: t_defs)
  have d: "discover_dependencies_and_versions t_env ''a==1''
             (index_url t_rooted) (extra_index_url t_rooted) (cache_dir t_rooted) = Inr ?d"
    by (simp add: t_defs)
  have run: "discover_and_add t_env t_rooted ''a==1'' = (Inr (), ?s')"
    by (simp add: t_discover_a1)
  note inst = add_placeholder_overwrites_concrete
                [of t_env "''2''" 2 t_rooted "''a''" "[]" "''a==1''"]
  from inst p2 r2
  have c1: "\<exists>s'. add t_env t_rooted ''a'' ''2'' None = (Inr (), s') \<and> recorded s' ''a'' 2 = Some None"
    by blast
  from inst have "Requirement_parse t_env ''a==1'' = Inr ?req
       \<and> discover_dependencies_and_versions t_env ''a==1''
            (index_url t_rooted) (extra_index_url t_rooted) (cache_dir t_rooted) = Inr ?d
       \<and> discover_and_add t_env t_rooted ''a==1'' = (Inr (), ?s')
       \<and> ''2'' \<in> set (available ?d) \<and> Version_parse t_env ''2'' = Inr 2
       \<and> Version_parse t_env (version ?d) \<noteq> Inr 2
       \<and> recorded t_rooted (key ?req) 2 = Some (Some [])
       \<longrightarrow> recorded ?s' (key ?req) 2 = Some None"
    by blast
  with req d run p2 p1 r2 have c2: "recorded ?s' ''a'' 2 = Some None"
    by simp
  from p2 p1 r2 c1 c2 show ?thesis by simp
qed

subsection \<open>Memoization of \<open>dependencies_for\<close>\<close>

text \<open>While a concrete list is recorded, \<open>dependencies_for\<close> answers from the cache and
  leaves the adapter, the log of external calls included, as it was.\<close>

lemma dependencies_for_populated:
  assumes "package \<noteq> root s" and "recorded s package v = Some (Some ds)"
  shows "dependencies_for env s package v = (Inr (Some ds), s)"
proof -
  from assms(2) have "packages_getitem s package v = Inr (Some ds)"
    by (auto simp: recorded_def entries_of_def packages_getitem_def split: option.splits)
  with assms(1) show ?thesis
    by (simp add: dependencies_for_def)
qed

text \<open>
  Claim C2 fails on this run. After \<open>root_dep("a")\<close>, \<open>dependencies_for("a", 1)\<close>
  makes the discovery call \<open>a==1\<close> and records the list of version 1. The call
  \<open>dependencies_for("a", 2)\<close> then discovers \<open>a==2\<close>, whose \<open>available\<close> list holds
  version 1 and so resets its entry to the placeholder. A second
  \<open>dependencies_for("a", 1)\<close> makes the discovery call \<open>a==1\<close> once more.
\<close>

theorem dependencies_for_rediscovers_after_reset:
  "root_dep t_env t_init ''a'' = (Inr (), t_rooted)
   \<and> calls t_rooted = [''a'']
   \<and> dependencies_for t_env t_rooted ''a'' 1 = (Inr (Some [t_dep_range]), t_after_1)
   \<and> calls t_after_1 = [''a'', ''a==1'']
   \<and> recorded t_after_1 ''a'' 1 = Some (Some [t_dep_range])
   \<and> dependencies_for t_env t_after_1 ''a'' 2 = (Inr (Some []), t_after_2)
   \<and> recorded t_after_2 ''a'' 1 = Some None
   \<and> fst (dependencies_for t_env t_after_2 ''a'' 1) = Inr (Some [t_dep_range])
   \<and> calls (snd (dependencies_for t_env t_after_2 ''a'' 1))
        = [''a'', ''a==1'', ''a==2'', ''a==1'']"
proof -
  have str: "Version_str t_env 1 = ''1''" "Version_str t_env 2 = ''2''"
    by (simp_all add: t_env_def t_Version_str_def)
  have r0: "packages_getitem t_rooted ''a'' 1 = Inr None"
    by (simp add: packages_getitem_def t_rooted_def t_init_def)
  have r1: "packages_getitem t_after_1 ''a'' 1 = Inr (Some [t_dep_range])"
    and r1': "packages_getitem t_after_1 ''a'' 2 = Inr None"
    by (simp_all add: packages_getitem_def t_after_1_def t_rooted_def t_init_def)
  have r2: "packages_getitem t_after_2 ''a'' 1 = Inr None"
    and r2': "packages_getitem t_after_2 ''a'' 2 = Inr (Some [])"
    by (simp_all add: packages_getitem_def t_after_2_def t_rooted_def t_init_def)
  have r3: "packages_getitem (t_after_1\<lparr>calls := [''a'', ''a==1'', ''a==2'', ''a==1'']\<rparr>) ''a'' 1
              = Inr (Some [t_dep_range])"
    by (simp add: packages_getitem_def t_after_1_def t_rooted_def t_init_def)
  have rt: "root t_rooted = ''_root_''" "root t_after_1 = ''_root_''" "root t_after_2 = ''_root_''"
    by (simp_all add: t_after_1_def t_after_2_def t_rooted_def t_init_def)
  have first: "dependencies_for t_env t_rooted ''a'' 1 = (Inr (Some [t_dep_range]), t_after_1)"
    by (simp add: dependencies_for_def rt r0 str t_discover_a1 r1 del: One_nat_def)
  have second: "dependencies_for t_env t_after_1 ''a'' 2 = (Inr (Some []), t_after_2)"
    by (simp add: dependencies_for_def rt r1' str t_discover_a2 r2' del: One_nat_def)
  have third: "dependencies_for t_env t_after_2 ''a'' 1 =
                 (Inr (Some [t_dep_range]),
                  t_after_1\<lparr>calls := [''a'', ''a==1'', ''a==2'', ''a==1'']\<rparr>)"
    by (simp add: dependencies_for_def rt r2 str t_discover_a1_again r3 del: One_nat_def)
  have "calls t_rooted = [''a'']" "calls t_after_1 = [''a'', ''a==1'']"
    by (simp_all add: t_rooted_def t_after_1_def)
  moreover have "recorded t_after_1 ''a'' 1 = Some (Some [t_dep_range])"
    "recorded t_after_2 ''a'' 1 = Some None"
    by (simp_all add: recorded_def entries_of_def t_after_1_def t_after_2_def)
  ultimately show ?thesis
    using t_root_dep first second third by simp
qed

subsection \<open>Equality of dependencies\<close>

text \<open>
  Claim C10 fails: two \<open>Dependency\<close> objects with the same name, and even the same
  constraint, are not equal under \<open>==\<close> unless they are the same object.
\<close>

theorem Dependency_eq_same_name_distinct_objects:
  "name (snd ((0, t_dep_range) :: nat dependency_object)) = name (snd ((1, t_dep_range) :: nat dependency_object))
   \<and> \<not> Dependency_eq (0, t_dep_range) (1, t_dep_range)"
  by (simp add: Dependency_eq_def)

subsection \<open>The parser of the specification\<close>
















subsection \<open>Requirement strings\<close>



end
